theory Spec2Isabelle
  imports Main "HOL-Library.Char_ord" "HOL-Library.List_Lexorder" "HOL-Library.Multiset"
begin

section \<open>Errors, contexts, log lines and observable events\<close>

text \<open>
  Go errors are values. \<open>Wrap msg e\<close> is \<^verbatim>\<open>fmt.Errorf(msg + ": %w", e)\<close>,
  \<open>Fmt msg e\<close> is \<^verbatim>\<open>fmt.Errorf(msg + ": %v", e)\<close> (the orchestrator formats, it does not
  wrap). \<open>Canceled\<close> and \<open>DeadlineExceeded\<close> are the two values \<^verbatim>\<open>ctx.Err()\<close> can return
  once a context is done. \<open>OSError\<close> stands for an error of the operating system or of
  another external collaborator.
\<close>

datatype error =
    Canceled
  | DeadlineExceeded
  | OSError string
  | Plain string
  | Wrap string error
  | Fmt string error

fun is_cancellation :: "error \<Rightarrow> bool" where
  "is_cancellation Canceled = True"
| "is_cancellation DeadlineExceeded = True"
| "is_cancellation (Wrap msg e) = is_cancellation e"
| "is_cancellation _ = False"

text \<open>
  The contexts the orchestrator builds: \<^verbatim>\<open>context.Background()\<close>, which has no deadline
  and is never cancelled, and \<^verbatim>\<open>context.WithTimeout(parent, d * time.Minute)\<close>.
\<close>

datatype "context" = Background | WithTimeout "context" int

fun bounded :: "context \<Rightarrow> bool" where
  "bounded Background = False"
| "bounded (WithTimeout parent minutes) = True"

text \<open>
  A call of \<^verbatim>\<open>log.Printf(format, args...)\<close> is recorded as the format string with its
  arguments, unformatted. The other events are the calls made on the collaborators.
\<close>

datatype arg = S string | I int | E error | EO "error option"

datatype event =
    Log string "arg list"
  | Call_Delete string
  | Call_Config
  | Call_New
  | Call_SetStorage
  | Call_TestConnection "context"
  | Call_Run "context"
  | Cron_AddFunc string
  | Cron_Start
  | Cron_Stop

text \<open>
  What a call does: it returns an error value (\<open>None\<close> is \<^verbatim>\<open>nil\<close>), panics, or
  stays blocked.
\<close>

datatype outcome = Return "error option" | Panic | Blocked

section \<open>The Storage capability\<close>

text \<open>
  The interface \<^verbatim>\<open>Storage\<close> is used by \<^verbatim>\<open>applyRetentionPolicy\<close> through two methods.
  A handle is a record of these methods over the state \<open>'w\<close> of the backend behind it;
  \<open>'c\<close> is the context, which the retention pass only hands on. \<^verbatim>\<open>List\<close> reads the
  state, \<^verbatim>\<open>Delete\<close> may change it.
\<close>

record ('c, 'w) Storage =
  List :: "'c \<Rightarrow> 'w \<Rightarrow> error + string list"
  Delete :: "'c \<Rightarrow> string \<Rightarrow> 'w \<Rightarrow> error option \<times> 'w"

section \<open>utils.go: applyRetentionPolicy\<close>

text \<open>
  The loop \<^verbatim>\<open>for i := 0; i < toDelete; i++\<close>, from index \<open>i\<close> on. It yields the events
  of the remaining iterations, the storage state after them, and whether indexing
  \<^verbatim>\<open>backups[i]\<close> panicked (out of range, which only a negative retention count causes).
\<close>

function deleteLoop ::
  "('c, 'w) Storage \<Rightarrow> 'c \<Rightarrow> string list \<Rightarrow> int \<Rightarrow> int \<Rightarrow> 'w \<Rightarrow> event list \<times> 'w \<times> bool" where
  "deleteLoop s ctx backups toDelete i w =
     (if i < toDelete then
        (if 0 \<le> i \<and> i < int (length backups) then
           (let name = backups ! nat i;
                (r, w') = Delete s ctx name w;
                evs = [Log ''Deleting old backup: %s'' [S name], Call_Delete name] @
                      (case r of
                         Some err \<Rightarrow> [Log ''Warning: failed to delete %s: %v'' [S name, E err]]
                       | None \<Rightarrow> []);
                (evs', w'', p) = deleteLoop s ctx backups toDelete (i + 1) w'
            in (evs @ evs', w'', p))
         else ([], w, True))
      else ([], w, False))"
  by pat_completeness auto
termination
  by (relation "measure (\<lambda>(s, ctx, backups, toDelete, i, w). nat (toDelete - i))") auto

declare deleteLoop.simps [simp del]

definition applyRetentionPolicy ::
  "'c \<Rightarrow> ('c, 'w) Storage \<Rightarrow> int \<Rightarrow> 'w \<Rightarrow> outcome \<times> 'w \<times> event list" where
  "applyRetentionPolicy ctx s retentionCount w =
     (let ev0 = [Log ''Applying retention policy (keeping %d backups)...'' [I retentionCount]] in
      case List s ctx w of
        Inl err \<Rightarrow> (Return (Some (Wrap ''failed to list backups'' err)), w, ev0)
      | Inr backups \<Rightarrow>
          if int (length backups) \<le> retentionCount then
            (Return None, w,
             ev0 @ [Log ''Current backup count (%d) within retention limit''
                      [I (int (length backups))]])
          else
            (let toDelete = int (length backups) - retentionCount;
                 (evs, w', p) = deleteLoop s ctx backups toDelete 0 w
             in if p then (Panic, w', ev0 @ evs)
                else (Return None, w',
                      ev0 @ evs @ [Log ''Retention policy applied, deleted %d old backup(s)''
                                     [I toDelete]])))"

subsection \<open>Reading a trace of the retention pass\<close>

text \<open>The names \<^verbatim>\<open>Delete\<close> was called with, in call order.\<close>

fun delete_calls :: "event list \<Rightarrow> string list" where
  "delete_calls [] = []"
| "delete_calls (Call_Delete n # evs) = n # delete_calls evs"
| "delete_calls (ev # evs) = delete_calls evs"

text \<open>The deletion failures that were logged, in log order.\<close>

fun warnings :: "event list \<Rightarrow> (string \<times> error) list" where
  "warnings [] = []"
| "warnings (Log f [S n, E e] # evs) =
     (if f = ''Warning: failed to delete %s: %v'' then (n, e) # warnings evs else warnings evs)"
| "warnings (ev # evs) = warnings evs"

text \<open>
  What \<^verbatim>\<open>Delete\<close> answers when it is called on the given names one after the other,
  each call on the state the previous one left.
\<close>

fun delete_results ::
  "('c, 'w) Storage \<Rightarrow> 'c \<Rightarrow> string list \<Rightarrow> 'w \<Rightarrow> (string \<times> error option) list" where
  "delete_results s ctx [] w = []"
| "delete_results s ctx (name # names) w =
     (name, fst (Delete s ctx name w)) # delete_results s ctx names (snd (Delete s ctx name w))"

text \<open>
  Whether each \<^verbatim>\<open>Delete\<close> call on the given names, made one after the other, succeeds
  and removes exactly the named artifact from what \<^verbatim>\<open>List\<close> reports.
\<close>

fun pass_deletes_ok :: "('c, 'w) Storage \<Rightarrow> 'c \<Rightarrow> string list \<Rightarrow> 'w \<Rightarrow> bool" where
  "pass_deletes_ok s ctx [] w = True"
| "pass_deletes_ok s ctx (name # names) w =
     (fst (Delete s ctx name w) = None \<and>
      List s ctx (snd (Delete s ctx name w)) = map_sum id (removeAll name) (List s ctx w) \<and>
      pass_deletes_ok s ctx names (snd (Delete s ctx name w)))"

text \<open>The entries the pass schedules for deletion: the first \<open>n - retentionCount\<close>.\<close>

definition to_delete :: "string list \<Rightarrow> int \<Rightarrow> string list" where
  "to_delete backups retentionCount = take (length backups - nat retentionCount) backups"

text \<open>
  The loop body as a recursion over the scheduled names; \<open>deleteLoop\<close> is shown equal to
  it below, and the proofs about the loop go through it.
\<close>

definition delete_events :: "string \<Rightarrow> error option \<Rightarrow> event list" where
  "delete_events name r =
     [Log ''Deleting old backup: %s'' [S name], Call_Delete name] @
     (case r of
        Some err \<Rightarrow> [Log ''Warning: failed to delete %s: %v'' [S name, E err]]
      | None \<Rightarrow> [])"

fun delete_each :: "('c, 'w) Storage \<Rightarrow> 'c \<Rightarrow> string list \<Rightarrow> 'w \<Rightarrow> event list \<times> 'w" where
  "delete_each s ctx [] w = ([], w)"
| "delete_each s ctx (name # names) w =
     (delete_events name (fst (Delete s ctx name w)) @
        fst (delete_each s ctx names (snd (Delete s ctx name w))),
      snd (delete_each s ctx names (snd (Delete s ctx name w))))"

section \<open>storage\_local.go: LocalStorage\<close>

text \<open>
  The operating system is a parameter: a record of the calls the backend makes on the
  packages \<^verbatim>\<open>os\<close>, \<^verbatim>\<open>io\<close> and \<^verbatim>\<open>path/filepath\<close>, over a file-system state \<open>'fs\<close>.
  \<^verbatim>\<open>os.ReadDir\<close> answers with directory entries, of which the backend reads
  \<^verbatim>\<open>Name()\<close> and \<^verbatim>\<open>IsDir()\<close>.
\<close>

record dirent =
  entry_Name :: string
  entry_IsDir :: bool

datatype 'a signal = Never | Ready 'a | Later 'a

record 'fs OS =
  Join :: "string \<Rightarrow> string \<Rightarrow> string"
  ReadDir :: "string \<Rightarrow> 'fs \<Rightarrow> error + dirent list"
  Remove :: "string \<Rightarrow> 'fs \<Rightarrow> error option \<times> 'fs"
  Open :: "string \<Rightarrow> 'fs \<Rightarrow> error option"
  Create :: "string \<Rightarrow> 'fs \<Rightarrow> error option"
  Copy :: "string \<Rightarrow> string \<Rightarrow> 'fs \<Rightarrow> error option signal"
  Close :: "string \<Rightarrow> 'fs \<Rightarrow> error option"

record LocalStorage =
  basePath :: string

text \<open>\<^verbatim>\<open>strings.HasPrefix\<close> and \<^verbatim>\<open>strings.HasSuffix\<close>, on byte strings.\<close>

definition HasPrefix :: "string \<Rightarrow> string \<Rightarrow> bool" where
  "HasPrefix s prefix = (length prefix \<le> length s \<and> take (length prefix) s = prefix)"

definition HasSuffix :: "string \<Rightarrow> string \<Rightarrow> bool" where
  "HasSuffix s suffix =
     (length suffix \<le> length s \<and> drop (length s - length suffix) s = suffix)"

definition isBackupFile :: "string \<Rightarrow> bool" where
  "isBackupFile name =
     (HasPrefix name ''pg-backup_'' \<and>
      (HasSuffix name ''.dump'' \<or>
       HasSuffix name ''.sql'' \<or>
       HasSuffix name ''.sql.gz'' \<or>
       HasSuffix name ''.tar''))"

text \<open>
  The naming convention in the words of the specification: the fixed prefix, then
  anything, then one of the approved extensions.
\<close>

definition approved_extensions :: "string list" where
  "approved_extensions = [''.dump'', ''.sql'', ''.sql.gz'', ''.tar'']"

definition matches_convention :: "string \<Rightarrow> bool" where
  "matches_convention name =
     (\<exists>middle ext. ext \<in> set approved_extensions \<and> name = ''pg-backup_'' @ middle @ ext)"

text \<open>
  \<^verbatim>\<open>List\<close>: the loop appends the names of the entries that are not directories and
  are backup files, in the order \<^verbatim>\<open>os.ReadDir\<close> gave; \<^verbatim>\<open>sort.Strings\<close> then sorts by
  bytes, which is the order of \<open>string\<close> here.
\<close>

definition LocalStorage_List :: "'fs OS \<Rightarrow> LocalStorage \<Rightarrow> 'c \<Rightarrow> 'fs \<Rightarrow> error + string list" where
  "LocalStorage_List os s ctx fs =
     (case ReadDir os (basePath s) fs of
        Inl err \<Rightarrow> Inl (Wrap ''failed to read backup directory'' err)
      | Inr entries \<Rightarrow>
          Inr (sort (map entry_Name
                 (filter (\<lambda>entry. \<not> entry_IsDir entry \<and> isBackupFile (entry_Name entry))
                    entries))))"

definition LocalStorage_Delete ::
  "'fs OS \<Rightarrow> LocalStorage \<Rightarrow> 'c \<Rightarrow> string \<Rightarrow> 'fs \<Rightarrow> error option \<times> 'fs" where
  "LocalStorage_Delete os s ctx backupName fs =
     (let filePath = Join os (basePath s) backupName in
      case Remove os filePath fs of
        (Some err, fs') \<Rightarrow> (Some (Wrap ''failed to delete backup'' err), fs')
      | (None, fs') \<Rightarrow> (None, fs'))"

text \<open>The handle as the interface value, and the method that applies the policy to it.\<close>

definition LocalStorage_handle :: "'fs OS \<Rightarrow> LocalStorage \<Rightarrow> ('c, 'fs) Storage" where
  "LocalStorage_handle os s = \<lparr>List = LocalStorage_List os s, Delete = LocalStorage_Delete os s\<rparr>"

definition LocalStorage_ApplyRetentionPolicy ::
  "'fs OS \<Rightarrow> LocalStorage \<Rightarrow> 'c \<Rightarrow> int \<Rightarrow> 'fs \<Rightarrow> outcome \<times> 'fs \<times> event list" where
  "LocalStorage_ApplyRetentionPolicy os s ctx retentionCount fs =
     applyRetentionPolicy ctx (LocalStorage_handle os s) retentionCount fs"

subsection \<open>Upload\<close>

text \<open>
  The \<^verbatim>\<open>select\<close> at the end of \<^verbatim>\<open>Upload\<close> waits for two signals: the context's
  \<^verbatim>\<open>Done\<close> channel and the channel \<^verbatim>\<open>done\<close> on which the copying goroutine sends what
  \<^verbatim>\<open>io.Copy\<close> returned. A signal is \<open>Ready\<close> when it is there by the time the
  \<^verbatim>\<open>select\<close> is evaluated, \<open>Later\<close> when it arrives while the \<^verbatim>\<open>select\<close> waits, and
  \<open>Never\<close> otherwise. Go takes a ready case; among several ready cases it takes any one,
  which is the scheduler's choice \<open>pick\<close>, as is the order of two later arrivals.
\<close>

datatype choice = Pick_ctx | Pick_done

datatype selected = Sel_ctx error | Sel_done "error option" | Sel_none

fun select_Upload :: "error signal \<Rightarrow> error option signal \<Rightarrow> choice \<Rightarrow> selected" where
  "select_Upload (Ready e) (Ready r) pick = (case pick of Pick_ctx \<Rightarrow> Sel_ctx e | Pick_done \<Rightarrow> Sel_done r)"
| "select_Upload (Ready e) d pick = Sel_ctx e"
| "select_Upload c (Ready r) pick = Sel_done r"
| "select_Upload (Later e) (Later r) pick = (case pick of Pick_ctx \<Rightarrow> Sel_ctx e | Pick_done \<Rightarrow> Sel_done r)"
| "select_Upload (Later e) Never pick = Sel_ctx e"
| "select_Upload Never (Later r) pick = Sel_done r"
| "select_Upload Never Never pick = Sel_none"

text \<open>
  \<^verbatim>\<open>Upload\<close>, with the context given by its \<^verbatim>\<open>Done\<close> signal carrying \<^verbatim>\<open>ctx.Err()\<close>;
  an already-expired context is \<open>Ready e\<close>. The result is the returned value with the
  lines the deferred closures log: they run last opened first, and each tests the
  variable \<^verbatim>\<open>err\<close> of \<^verbatim>\<open>Upload\<close>, not the error of its own \<^verbatim>\<open>Close\<close>. The contents
  of the file system after the call are not part of this model.
\<close>

definition LocalStorage_Upload ::
  "'fs OS \<Rightarrow> choice \<Rightarrow> LocalStorage \<Rightarrow> error signal \<Rightarrow> string \<Rightarrow> string \<Rightarrow> 'fs \<Rightarrow>
     outcome \<times> event list" where
  "LocalStorage_Upload os pick s ctx sourcePath backupName fs =
     (let destPath = Join os (basePath s) backupName;
          log_src = [Log ''failed to close source file: %v'' [EO (Close os sourcePath fs)]];
          log_dst = [Log ''failed to close destination file: %v'' [EO (Close os destPath fs)]]
      in
      case Open os sourcePath fs of
        Some err \<Rightarrow> (Return (Some (Wrap ''failed to open source file'' err)), [])
      | None \<Rightarrow>
          (case Create os destPath fs of
             Some err \<Rightarrow> (Return (Some (Wrap ''failed to create destination file'' err)), log_src)
           | None \<Rightarrow>
               (case select_Upload ctx (Copy os destPath sourcePath fs) pick of
                  Sel_ctx e \<Rightarrow> (Return (Some e), [])
                | Sel_done (Some err) \<Rightarrow>
                    (Return (Some (Wrap ''failed to copy file'' err)), log_dst @ log_src)
                | Sel_done None \<Rightarrow> (Return None, [])
                | Sel_none \<Rightarrow> (Blocked, []))))"

section \<open>The object-store backend: S3Storage\<close>

text \<open>
  \<^verbatim>\<open>filepath.Base\<close> of the Go library on a Unix path: the last element, after trailing
  slashes are stripped; \<^verbatim>\<open>"."\<close> for the empty path and \<^verbatim>\<open>"/"\<close> for a path of slashes.
\<close>

definition Base :: "string \<Rightarrow> string" where
  "Base path =
     (if path = [] then ''.''
      else
        (let stripped = rev (dropWhile (\<lambda>c. c = CHR ''/'') (rev path));
             last_element = rev (takeWhile (\<lambda>c. c \<noteq> CHR ''/'') (rev stripped))
         in if last_element = [] then ''/'' else last_element))"

definition TrimSuffix :: "string \<Rightarrow> string \<Rightarrow> string" where
  "TrimSuffix s suffix = (if HasSuffix s suffix then take (length s - length suffix) s else s)"

text \<open>
  The S3 client is a parameter over the state \<open>'w\<close> of the service: \<open>ListObjectsV2\<close>
  gives what the successive \<^verbatim>\<open>NextPage\<close> calls of the paginator answer for a bucket
  and a prefix, each page an error or its object keys (a key may be \<^verbatim>\<open>nil\<close>).
\<close>

record 'w S3Client =
  ListObjectsV2 :: "string \<Rightarrow> string \<Rightarrow> 'w \<Rightarrow> (error + string option list) list"
  DeleteObject :: "string \<Rightarrow> string \<Rightarrow> 'w \<Rightarrow> error option \<times> 'w"

record S3Storage =
  bucket :: string
  backupPrefix :: string

definition getKey :: "S3Storage \<Rightarrow> string \<Rightarrow> string" where
  "getKey s backupName =
     (if backupPrefix s = [] then backupName
      else TrimSuffix (backupPrefix s) ''/'' @ ''/'' @ backupName)"

text \<open>The loop over the pages: it stops with the error of the first page that fails.\<close>

fun list_pages :: "(error + string option list) list \<Rightarrow> string list \<Rightarrow> error + string list" where
  "list_pages [] backups = Inr backups"
| "list_pages (Inl err # pages) backups = Inl (Wrap ''failed to list S3 objects'' err)"
| "list_pages (Inr contents # pages) backups =
     list_pages pages
       (backups @ [Base key. Some key \<leftarrow> contents, isBackupFile (Base key)])"

definition S3Storage_List :: "'w S3Client \<Rightarrow> S3Storage \<Rightarrow> 'c \<Rightarrow> 'w \<Rightarrow> error + string list" where
  "S3Storage_List client s ctx w =
     (let prefix = (if backupPrefix s \<noteq> [] \<and> \<not> HasSuffix (backupPrefix s) ''/''
                    then backupPrefix s @ ''/'' else backupPrefix s)
      in case list_pages (ListObjectsV2 client (bucket s) prefix w) [] of
           Inl err \<Rightarrow> Inl err
         | Inr backups \<Rightarrow> Inr (sort backups))"

definition S3Storage_Delete ::
  "'w S3Client \<Rightarrow> S3Storage \<Rightarrow> 'c \<Rightarrow> string \<Rightarrow> 'w \<Rightarrow> error option \<times> 'w" where
  "S3Storage_Delete client s ctx backupName w =
     (let key = getKey s backupName in
      case DeleteObject client (bucket s) key w of
        (Some err, w') \<Rightarrow> (Some (Wrap ''failed to delete S3 object'' err), w')
      | (None, w') \<Rightarrow> (None, w'))"

definition S3Storage_handle :: "'w S3Client \<Rightarrow> S3Storage \<Rightarrow> ('c, 'w) Storage" where
  "S3Storage_handle client s = \<lparr>List = S3Storage_List client s, Delete = S3Storage_Delete client s\<rparr>"

section \<open>The orchestrator: Run\<close>

text \<open>
  The configuration as \<^verbatim>\<open>Run\<close> reads it, and the interface \<^verbatim>\<open>Backup\<close> as a record of
  its methods over the state \<open>'b\<close> of the backup producer; \<open>'st\<close> is the storage handle.
\<close>

record Config =
  BackupCron :: string
  StorageType :: string
  RetentionCount :: int
  BackupOnStart :: bool
  BackupTimeout :: int

record ('b, 'st) Backup =
  Backup_Name :: "'b \<Rightarrow> string"
  Backup_Config :: "'b \<Rightarrow> (error + Config) \<times> 'b"
  Backup_ExtraConfigLogInfo :: "'b \<Rightarrow> string list"
  Backup_SetStorage :: "'st \<Rightarrow> 'b \<Rightarrow> error option \<times> 'b"
  Backup_TestConnection :: "context \<Rightarrow> 'b \<Rightarrow> error option \<times> 'b"
  Backup_Run :: "context \<Rightarrow> 'b \<Rightarrow> error option \<times> 'b"

text \<open>
  What \<^verbatim>\<open>Run\<close> uses besides the backup producer: the storage factory \<^verbatim>\<open>New\<close> with the
  handle's \<^verbatim>\<open>Type()\<close>, and the cron library: \<open>AddFunc\<close> answers whether the schedule
  expression is accepted and with which entry id, \<open>Next\<close> is the formatted time of the
  next run.
\<close>

record 'st Deps =
  New :: "Config \<Rightarrow> error + 'st"
  Type :: "'st \<Rightarrow> string"
  AddFunc :: "string \<Rightarrow> error + int"
  Next :: string

text \<open>
  After the scheduler has started, \<^verbatim>\<open>Run\<close> waits for a signal while the scheduler fires
  the job at each tick. The inputs are what arrives, in order; ticks are taken one at a
  time.
\<close>

datatype input = Tick | Signal string

text \<open>The function registered with \<^verbatim>\<open>c.AddFunc\<close>.\<close>

definition cron_job :: "('b, 'st) Backup \<Rightarrow> Config \<Rightarrow> 'b \<Rightarrow> event list \<times> 'b" where
  "cron_job b cfg st =
     (let ctx = WithTimeout Background (BackupTimeout cfg);
          (r, st') = Backup_Run b ctx st
      in ([Log ''Cron triggered backup job'' [], Call_Run ctx] @
          (case r of Some err \<Rightarrow> [Log ''Backup failed: %v'' [E err]] | None \<Rightarrow> []),
          st'))"

text \<open>
  From \<^verbatim>\<open>c.Start()\<close> on. With no input left \<^verbatim>\<open>Run\<close> is blocked on the signal channel,
  the scheduler running; a signal stops the scheduler and \<^verbatim>\<open>Run\<close> returns \<^verbatim>\<open>nil\<close>.
\<close>

fun serve :: "('b, 'st) Backup \<Rightarrow> Config \<Rightarrow> input list \<Rightarrow> 'b \<Rightarrow> event list \<times> outcome \<times> 'b" where
  "serve b cfg [] st = ([], Blocked, st)"
| "serve b cfg (Tick # inputs) st =
     (let (evs, st') = cron_job b cfg st;
          (evs', out, st'') = serve b cfg inputs st'
      in (evs @ evs', out, st''))"
| "serve b cfg (Signal sig # inputs) st =
     ([Log ''Received signal %s, shutting down...'' [S sig], Cron_Stop,
       Log ''Shutdown complete'' []],
      Return None, st)"

text \<open>The run on startup, when configured.\<close>

definition initial_backup :: "('b, 'st) Backup \<Rightarrow> Config \<Rightarrow> 'b \<Rightarrow> event list \<times> 'b" where
  "initial_backup b cfg st =
     (if BackupOnStart cfg then
        (let (r, st') = Backup_Run b Background st
         in ([Log ''Running initial backup on startup...'' [], Call_Run Background] @
             (case r of Some err \<Rightarrow> [Log ''Initial backup failed: %v'' [E err]] | None \<Rightarrow> []),
             st'))
      else ([], st))"

text \<open>Registering the job and starting the scheduler, then waiting.\<close>

definition schedule ::
  "('b, 'st) Backup \<Rightarrow> 'st Deps \<Rightarrow> Config \<Rightarrow> input list \<Rightarrow> 'b \<Rightarrow> event list \<times> outcome \<times> 'b" where
  "schedule b deps cfg inputs st =
     (case AddFunc deps (BackupCron cfg) of
        Inl err \<Rightarrow> ([], Return (Some (Fmt ''failed to add cron job'' err)), st)
      | Inr entryID \<Rightarrow>
          (let (evs, out, st') = serve b cfg inputs st
           in ([Cron_AddFunc (BackupCron cfg),
                Log ''Cron job registered with ID: %d'' [I entryID],
                Cron_Start,
                Log ''Cron scheduler started, waiting for scheduled jobs...'' [],
                Log ''Next backup scheduled at: %s'' [S (Next deps)]] @ evs,
               out, st')))"

definition Run ::
  "('b, 'st) Backup \<Rightarrow> 'st Deps \<Rightarrow> input list \<Rightarrow> 'b \<Rightarrow> event list \<times> outcome \<times> 'b" where
  "Run b deps inputs st =
     (let ev0 = [Log ''Starting %s Backup Service...'' [S (Backup_Name b st)], Call_Config] in
      case Backup_Config b st of
        (Inl err, st1) \<Rightarrow> (ev0, Return (Some (Fmt ''failed to load configuration'' err)), st1)
      | (Inr cfg, st1) \<Rightarrow>
          (let ev1 = ev0 @ [Log ''Configuration loaded:'' []] @
                     map (\<lambda>v. Log ''  %s'' [S v]) (Backup_ExtraConfigLogInfo b st1) @
                     [Log ''  Backup schedule: %s'' [S (BackupCron cfg)],
                      Log ''  Storage type: %s'' [S (StorageType cfg)],
                      Log ''  Retention count: %d'' [I (RetentionCount cfg)],
                      Call_New]
           in case New deps cfg of
                Inl err \<Rightarrow> (ev1, Return (Some (Fmt ''failed to initialize storage'' err)), st1)
              | Inr store \<Rightarrow>
                  (let ev2 = ev1 @ [Log ''Storage initialized: %s'' [S (Type deps store)],
                                    Call_SetStorage]
                   in case Backup_SetStorage b store st1 of
                        (Some err, st2) \<Rightarrow>
                          (ev2, Return (Some (Fmt ''failed to set storage'' err)), st2)
                      | (None, st2) \<Rightarrow>
                          (let ev3 = ev2 @ [Call_TestConnection Background]
                           in case Backup_TestConnection b Background st2 of
                                (Some err, st3) \<Rightarrow>
                                  (ev3, Return (Some (Fmt ''failed to connect to PostgreSQL'' err)),
                                   st3)
                              | (None, st3) \<Rightarrow>
                                  (let (evi, st4) = initial_backup b cfg st3;
                                       (evs, out, st5) = schedule b deps cfg inputs st4
                                   in (ev3 @ [Log ''PostgreSQL connection verified'' []] @
                                       evi @ evs,
                                       out, st5))))))"

subsection \<open>Reading a trace of the orchestrator\<close>

text \<open>The contexts \<^verbatim>\<open>b.Run\<close> was called with, in call order.\<close>

fun run_calls :: "event list \<Rightarrow> context list" where
  "run_calls [] = []"
| "run_calls (Call_Run ctx # evs) = ctx # run_calls evs"
| "run_calls (ev # evs) = run_calls evs"

text \<open>The failures of \<^verbatim>\<open>b.Run\<close> that were logged, in log order.\<close>

fun run_failure_logs :: "event list \<Rightarrow> error list" where
  "run_failure_logs [] = []"
| "run_failure_logs (Log f [E e] # evs) =
     (if f = ''Initial backup failed: %v'' \<or> f = ''Backup failed: %v''
      then e # run_failure_logs evs else run_failure_logs evs)"
| "run_failure_logs (ev # evs) = run_failure_logs evs"

text \<open>Whether the job was registered with the scheduler, and the scheduler started.\<close>

fun scheduler_registered :: "event list \<Rightarrow> bool" where
  "scheduler_registered [] = False"
| "scheduler_registered (Cron_AddFunc spec # evs) = True"
| "scheduler_registered (ev # evs) = scheduler_registered evs"

fun scheduler_started :: "event list \<Rightarrow> bool" where
  "scheduler_started [] = False"
| "scheduler_started (Cron_Start # evs) = True"
| "scheduler_started (ev # evs) = scheduler_started evs"

text \<open>
  What \<^verbatim>\<open>b.Run\<close> answers at \<open>n\<close> successive ticks, each on the state the previous run
  left.
\<close>

fun tick_results :: "('b, 'st) Backup \<Rightarrow> Config \<Rightarrow> nat \<Rightarrow> 'b \<Rightarrow> error option list" where
  "tick_results b cfg 0 st = []"
| "tick_results b cfg (Suc n) st =
     fst (Backup_Run b (WithTimeout Background (BackupTimeout cfg)) st) #
     tick_results b cfg n (snd (Backup_Run b (WithTimeout Background (BackupTimeout cfg)) st))"

text \<open>How many ticks arrive before the first signal, and whether a signal arrives.\<close>

fun ticks_before_signal :: "input list \<Rightarrow> nat" where
  "ticks_before_signal [] = 0"
| "ticks_before_signal (Tick # inputs) = Suc (ticks_before_signal inputs)"
| "ticks_before_signal (Signal sig # inputs) = 0"

fun signalled :: "input list \<Rightarrow> bool" where
  "signalled [] = False"
| "signalled (Tick # inputs) = signalled inputs"
| "signalled (Signal sig # inputs) = True"

section \<open>Concrete collaborators for the examples\<close>

text \<open>
  A directory as the state of the file system: \<^verbatim>\<open>os.ReadDir\<close> of the root gives its
  entries; \<^verbatim>\<open>os.Remove\<close> removes the named entry, and fails when the directory is not
  writable or the entry is missing. A bucket as a list of object keys, listed in one page.
\<close>

definition dir_OS :: "string \<Rightarrow> bool \<Rightarrow> dirent list OS" where
  "dir_OS root writable =
     \<lparr>Join = (\<lambda>dir name. dir @ ''/'' @ name),
      ReadDir = (\<lambda>path fs. if path = root then Inr fs
                             else Inl (OSError ''no such file or directory'')),
      Remove = (\<lambda>path fs.
                  if \<not> writable then (Some (OSError ''permission denied''), fs)
                  else if \<exists>entry \<in> set fs. path = root @ ''/'' @ entry_Name entry
                  then (None, [entry \<leftarrow> fs. root @ ''/'' @ entry_Name entry \<noteq> path])
                  else (Some (OSError ''no such file or directory''), fs)),
      Open = (\<lambda>path fs. None),
      Create = (\<lambda>path fs. if writable then None else Some (OSError ''permission denied'')),
      Copy = (\<lambda>dst src fs. Ready None),
      Close = (\<lambda>path fs. None)\<rparr>"

definition example_dir :: "dirent list" where
  "example_dir =
     [\<lparr>entry_Name = ''pg-backup_2024-01-01.dump'', entry_IsDir = False\<rparr>,
      \<lparr>entry_Name = ''pg-backup_2024-01-01.dump.tmp'', entry_IsDir = False\<rparr>,
      \<lparr>entry_Name = ''pg-backup_2024-01-02.sql.gz'', entry_IsDir = False\<rparr>,
      \<lparr>entry_Name = ''pg-backup_2024-01-03.dump'', entry_IsDir = False\<rparr>,
      \<lparr>entry_Name = ''readme.txt'', entry_IsDir = False\<rparr>]"

definition backups_dir :: LocalStorage where
  "backups_dir = \<lparr>basePath = ''/backups''\<rparr>"

definition bucket_client :: "string list S3Client" where
  "bucket_client =
     \<lparr>ListObjectsV2 = (\<lambda>bucket prefix keys. [Inr [Some key. key \<leftarrow> keys, HasPrefix key prefix]]),
      DeleteObject = (\<lambda>bucket key keys. (None, removeAll key keys))\<rparr>"

definition example_config :: Config where
  "example_config =
     \<lparr>BackupCron = ''0 2 * * *'', StorageType = ''local'', RetentionCount = 7,
      BackupOnStart = True, BackupTimeout = 30\<rparr>"

definition stub_Backup :: "Config \<Rightarrow> error option \<Rightarrow> error option \<Rightarrow> (unit, unit) Backup" where
  "stub_Backup cfg connection run =
     \<lparr>Backup_Name = (\<lambda>st. ''PostgreSQL''),
      Backup_Config = (\<lambda>st. (Inr cfg, st)),
      Backup_ExtraConfigLogInfo = (\<lambda>st. []),
      Backup_SetStorage = (\<lambda>store st. (None, st)),
      Backup_TestConnection = (\<lambda>ctx st. (connection, st)),
      Backup_Run = (\<lambda>ctx st. (run, st))\<rparr>"

definition stub_Deps :: "unit Deps" where
  "stub_Deps =
     \<lparr>New = (\<lambda>cfg. Inr ()), Type = (\<lambda>store. ''local''), AddFunc = (\<lambda>spec. Inr 1),
      Next = ''2024-01-02 02:00:00''\<rparr>"

section \<open>Properties\<close>

lemma drop_take_step:
  assumes "0 \<le> i" "i < toDelete" "toDelete \<le> int (length backups)"
  shows "drop (nat i) (take (nat toDelete) backups) =
         backups ! nat i # drop (nat (i + 1)) (take (nat toDelete) backups)"
proof -
  have lt: "nat i < length (take (nat toDelete) backups)" using assms by simp
  have "drop (nat i) (take (nat toDelete) backups) =
        take (nat toDelete) backups ! nat i # drop (Suc (nat i)) (take (nat toDelete) backups)"
    using lt by (rule Cons_nth_drop_Suc [symmetric])
  moreover have "take (nat toDelete) backups ! nat i = backups ! nat i" using assms by simp
  moreover have "Suc (nat i) = nat (i + 1)" using assms by simp
  ultimately show ?thesis by simp
qed

lemma deleteLoop_delete_each:
  "0 \<le> i \<Longrightarrow> toDelete \<le> int (length backups) \<Longrightarrow>
   deleteLoop s ctx backups toDelete i w =
     (case delete_each s ctx (drop (nat i) (take (nat toDelete) backups)) w of
        (evs, w') \<Rightarrow> (evs, w', False))"
proof (induction s ctx backups toDelete i w rule: deleteLoop.induct)
  case (1 s ctx backups toDelete i w)
  show ?case
  proof (cases "i < toDelete")
    case False
    then have "drop (nat i) (take (nat toDelete) backups) = []" using "1.prems" by simp
    then show ?thesis using False by (simp add: deleteLoop.simps [of s ctx backups toDelete i w])
  next
    case True
    have inr: "0 \<le> i \<and> i < int (length backups)" using True "1.prems" by simp
    obtain r w' where d: "Delete s ctx (backups ! nat i) w = (r, w')" by (cases "Delete s ctx (backups ! nat i) w")
    have ih: "deleteLoop s ctx backups toDelete (i + 1) w' =
       (case delete_each s ctx (drop (nat (i + 1)) (take (nat toDelete) backups)) w' of
          (evs, w'') \<Rightarrow> (evs, w'', False))"
      using "1.IH" [OF True inr refl d [symmetric] refl] "1.prems" by simp
    show ?thesis
      using True inr d ih drop_take_step [OF "1.prems"(1) True "1.prems"(2)]
      by (simp add: deleteLoop.simps [of s ctx backups toDelete i w] delete_events_def Let_def
            split: prod.splits)
  qed
qed

lemma delete_calls_append: "delete_calls (xs @ ys) = delete_calls xs @ delete_calls ys"
  by (induction xs rule: delete_calls.induct) simp_all

lemma warnings_append: "warnings (xs @ ys) = warnings xs @ warnings ys"
  by (induction xs rule: warnings.induct) simp_all

lemma delete_calls_delete_each: "delete_calls (fst (delete_each s ctx names w)) = names"
  by (induction names arbitrary: w) (simp_all add: delete_calls_append delete_events_def split: option.splits)

lemma warnings_delete_each:
  "warnings (fst (delete_each s ctx names w)) =
     [(n, e). (n, Some e) \<leftarrow> delete_results s ctx names w]"
  by (induction names arbitrary: w) (simp_all add: warnings_append delete_events_def split: option.splits)

lemma applyRetentionPolicy_Inl:
  "List s ctx w = Inl err \<Longrightarrow>
   applyRetentionPolicy ctx s rc w =
     (Return (Some (Wrap ''failed to list backups'' err)), w,
      [Log ''Applying retention policy (keeping %d backups)...'' [I rc]])"
  by (simp add: applyRetentionPolicy_def)

lemma applyRetentionPolicy_within:
  "List s ctx w = Inr backups \<Longrightarrow> int (length backups) \<le> rc \<Longrightarrow>
   applyRetentionPolicy ctx s rc w =
     (Return None, w,
      [Log ''Applying retention policy (keeping %d backups)...'' [I rc],
       Log ''Current backup count (%d) within retention limit'' [I (int (length backups))]])"
  by (simp add: applyRetentionPolicy_def)

lemma applyRetentionPolicy_prune:
  assumes "List s ctx w = Inr backups" "0 \<le> rc" "rc < int (length backups)"
  shows "applyRetentionPolicy ctx s rc w =
     (Return None, snd (delete_each s ctx (to_delete backups rc) w),
      [Log ''Applying retention policy (keeping %d backups)...'' [I rc]] @
      fst (delete_each s ctx (to_delete backups rc) w) @
      [Log ''Retention policy applied, deleted %d old backup(s)''
         [I (int (length backups) - rc)]])"
proof -
  have n: "nat (int (length backups) - rc) = length backups - nat rc" using assms by simp
  have "deleteLoop s ctx backups (int (length backups) - rc) 0 w =
     (case delete_each s ctx (to_delete backups rc) w of (evs, w') \<Rightarrow> (evs, w', False))"
    using deleteLoop_delete_each [of 0 "int (length backups) - rc" backups s ctx w] assms
    by (simp add: n to_delete_def)
  then show ?thesis using assms
    by (simp add: applyRetentionPolicy_def split: prod.splits)
qed

lemma to_delete_within: "int (length backups) \<le> rc \<Longrightarrow> to_delete backups rc = []"
  by (simp add: to_delete_def)

lemma applyRetentionPolicy_calls:
  assumes "List s ctx w = Inr backups" "0 \<le> rc"
  shows "fst (applyRetentionPolicy ctx s rc w) = Return None"
    and "delete_calls (snd (snd (applyRetentionPolicy ctx s rc w))) = to_delete backups rc"
    and "warnings (snd (snd (applyRetentionPolicy ctx s rc w))) =
           [(n, e). (n, Some e) \<leftarrow> delete_results s ctx (to_delete backups rc) w]"
    and "fst (snd (applyRetentionPolicy ctx s rc w)) = snd (delete_each s ctx (to_delete backups rc) w)"
proof -
  show "fst (applyRetentionPolicy ctx s rc w) = Return None"
    using assms applyRetentionPolicy_within [of s ctx w backups rc]
      applyRetentionPolicy_prune [of s ctx w backups rc]
    by (cases "int (length backups) \<le> rc") simp_all
  show "delete_calls (snd (snd (applyRetentionPolicy ctx s rc w))) = to_delete backups rc"
    using assms applyRetentionPolicy_within [of s ctx w backups rc]
      applyRetentionPolicy_prune [of s ctx w backups rc]
    by (cases "int (length backups) \<le> rc")
      (simp_all add: to_delete_within delete_calls_append delete_calls_delete_each)
  show "warnings (snd (snd (applyRetentionPolicy ctx s rc w))) =
           [(n, e). (n, Some e) \<leftarrow> delete_results s ctx (to_delete backups rc) w]"
    using assms applyRetentionPolicy_within [of s ctx w backups rc]
      applyRetentionPolicy_prune [of s ctx w backups rc]
    by (cases "int (length backups) \<le> rc")
      (simp_all add: to_delete_within warnings_append warnings_delete_each)
  show "fst (snd (applyRetentionPolicy ctx s rc w)) = snd (delete_each s ctx (to_delete backups rc) w)"
    using assms applyRetentionPolicy_within [of s ctx w backups rc]
      applyRetentionPolicy_prune [of s ctx w backups rc]
    by (cases "int (length backups) \<le> rc") (simp_all add: to_delete_within)
qed


lemma isBackupFile_examples:
  "isBackupFile ''pg-backup_2024-01-01.dump''"
  "\<not> isBackupFile ''pg-backup_2024-01-01.dump.tmp''"
  "isBackupFile ''pg-backup_2024-01-02.sql.gz''"
  "isBackupFile ''pg-backup_2024-01-03.dump''"
  "\<not> isBackupFile ''readme.txt''"
  by (simp_all add: isBackupFile_def HasPrefix_def HasSuffix_def)

lemma List_example_dir:
  "List (LocalStorage_handle (dir_OS ''/backups'' wr) backups_dir) ctx example_dir =
     Inr [''pg-backup_2024-01-01.dump'', ''pg-backup_2024-01-02.sql.gz'',
          ''pg-backup_2024-01-03.dump'']"
  by (simp add: LocalStorage_handle_def LocalStorage_List_def dir_OS_def backups_dir_def
      example_dir_def isBackupFile_examples)

text \<open>
  Claim C6. If \<^verbatim>\<open>List\<close> fails, the pass returns the wrapped error, has called
  \<^verbatim>\<open>Delete\<close> on nothing, and leaves the storage state as it was.
\<close>

theorem C6_list_failure_aborts:
  "List s ctx w = Inl err \<Longrightarrow>
   fst (applyRetentionPolicy ctx s rc w) = Return (Some (Wrap ''failed to list backups'' err)) \<and>
   delete_calls (snd (snd (applyRetentionPolicy ctx s rc w))) = [] \<and>
   fst (snd (applyRetentionPolicy ctx s rc w)) = w"
  by (simp add: applyRetentionPolicy_Inl)

theorem C6_list_failure_aborts_witness:
  "List (LocalStorage_handle (dir_OS ''/backups'' True) \<lparr>basePath = ''/elsewhere''\<rparr>) () example_dir =
     Inl (Wrap ''failed to read backup directory'' (OSError ''no such file or directory'')) \<and>
   fst (applyRetentionPolicy () (LocalStorage_handle (dir_OS ''/backups'' True) \<lparr>basePath = ''/elsewhere''\<rparr>)
          1 example_dir) =
     Return (Some (Wrap ''failed to list backups''
       (Wrap ''failed to read backup directory'' (OSError ''no such file or directory'')))) \<and>
   delete_calls (snd (snd (applyRetentionPolicy ()
     (LocalStorage_handle (dir_OS ''/backups'' True) \<lparr>basePath = ''/elsewhere''\<rparr>) 1 example_dir))) = [] \<and>
   fst (snd (applyRetentionPolicy ()
     (LocalStorage_handle (dir_OS ''/backups'' True) \<lparr>basePath = ''/elsewhere''\<rparr>) 1 example_dir)) =
     example_dir"
proof -
  have l: "List (LocalStorage_handle (dir_OS ''/backups'' True) \<lparr>basePath = ''/elsewhere''\<rparr>) () example_dir =
     Inl (Wrap ''failed to read backup directory'' (OSError ''no such file or directory''))"
    by (simp add: LocalStorage_handle_def LocalStorage_List_def dir_OS_def)
  show ?thesis using l C6_list_failure_aborts [OF l, of 1] by simp
qed

text \<open>
  Claim C10. With a non-negative retention count, the pass returns \<^verbatim>\<open>nil\<close> whenever
  \<^verbatim>\<open>List\<close> succeeds, whatever the \<^verbatim>\<open>Delete\<close> calls answer; and for any retention count,
  an error it returns is the error of \<^verbatim>\<open>List\<close> wrapped in \<^verbatim>\<open>failed to list backups\<close>.
\<close>

theorem C10_only_list_error_is_returned:
  "(0 \<le> rc \<longrightarrow> (\<forall>backups. List s ctx w = Inr backups \<longrightarrow>
       fst (applyRetentionPolicy ctx s rc w) = Return None)) \<and>
   (\<forall>err. fst (applyRetentionPolicy ctx s rc w) = Return (Some err) \<longrightarrow>
       (\<exists>e. List s ctx w = Inl e \<and> err = Wrap ''failed to list backups'' e))"
proof (intro conjI impI allI)
  fix backups assume "0 \<le> rc" "List s ctx w = Inr backups"
  then show "fst (applyRetentionPolicy ctx s rc w) = Return None"
    by (rule applyRetentionPolicy_calls(1) [rotated])
next
  fix err assume r: "fst (applyRetentionPolicy ctx s rc w) = Return (Some err)"
  show "\<exists>e. List s ctx w = Inl e \<and> err = Wrap ''failed to list backups'' e"
  proof (cases "List s ctx w")
    case (Inl e)
    then show ?thesis using r by (simp add: applyRetentionPolicy_Inl)
  next
    case (Inr backups)
    then have "fst (applyRetentionPolicy ctx s rc w) \<noteq> Return (Some err)"
      by (simp add: applyRetentionPolicy_def Let_def split: prod.splits)
    then show ?thesis using r by simp
  qed
qed

text \<open>
  Claim C5. Whatever \<^verbatim>\<open>Delete\<close> answers, a pass whose \<^verbatim>\<open>List\<close> succeeded calls
  \<^verbatim>\<open>Delete\<close> on every scheduled name, in order, and returns \<^verbatim>\<open>nil\<close>; the warnings it
  logs are exactly the failed calls with their errors, in call order.
\<close>

theorem C5_delete_failures_do_not_abort:
  assumes "List s ctx w = Inr backups" and "0 \<le> rc"
  shows "fst (applyRetentionPolicy ctx s rc w) = Return None \<and>
         delete_calls (snd (snd (applyRetentionPolicy ctx s rc w))) = to_delete backups rc \<and>
         warnings (snd (snd (applyRetentionPolicy ctx s rc w))) =
           [(n, e). (n, Some e) \<leftarrow> delete_results s ctx (to_delete backups rc) w]"
  using applyRetentionPolicy_calls(1,2,3) [OF assms] by simp

lemma strict_sorted_take_below_rest:
  assumes "sorted_wrt (<) (xs :: string list)"
  shows "\<forall>x \<in> set (take k xs). \<forall>y \<in> set xs - set (take k xs). x < y"
proof (intro ballI)
  fix x y assume x: "x \<in> set (take k xs)" and y: "y \<in> set xs - set (take k xs)"
  have "set xs = set (take k xs) \<union> set (drop k xs)"
    by (metis append_take_drop_id set_append)
  then have "y \<in> set (drop k xs)" using y by blast
  moreover have "sorted_wrt (<) (take k xs @ drop k xs)" using assms by simp
  then have "\<forall>a \<in> set (take k xs). \<forall>b \<in> set (drop k xs). a < b"
    unfolding sorted_wrt_append by blast
  ultimately show "x < y" using x by blast
qed

lemma strict_sorted_sort_id: "sorted_wrt (<) (xs :: string list) \<Longrightarrow> sort xs = xs"
  by (simp add: sorted_sort_id strict_sorted_imp_sorted)

text \<open>
  Claim C1, as amended. For every storage handle whose \<^verbatim>\<open>List\<close> succeeds with a listing
  of length \<open>n\<close> and every non-negative retention count, the pass calls \<^verbatim>\<open>Delete\<close> on no
  name when \<open>n \<le> retentionCount\<close>; otherwise it makes exactly \<open>n - retentionCount\<close> calls,
  on the first \<open>n - retentionCount\<close> entries of the listing in listing order; with a
  retention count of zero it calls \<^verbatim>\<open>Delete\<close> on every listed name. When the listing is
  strictly ascending, these entries are the \<open>n - retentionCount\<close> smallest names, the
  calls are in strictly ascending order, and every deleted name is below every name that
  is kept.
\<close>

theorem C1_retention_deletes_oldest:
  assumes "List s ctx w = Inr backups" and "0 \<le> rc"
  shows "(int (length backups) \<le> rc \<longrightarrow>
            delete_calls (snd (snd (applyRetentionPolicy ctx s rc w))) = []) \<and>
         (rc < int (length backups) \<longrightarrow>
            length (delete_calls (snd (snd (applyRetentionPolicy ctx s rc w)))) =
              length backups - nat rc \<and>
            delete_calls (snd (snd (applyRetentionPolicy ctx s rc w))) =
              take (length backups - nat rc) backups) \<and>
         (rc = 0 \<longrightarrow> delete_calls (snd (snd (applyRetentionPolicy ctx s rc w))) = backups) \<and>
         (sorted_wrt (<) backups \<longrightarrow>
            delete_calls (snd (snd (applyRetentionPolicy ctx s rc w))) =
              take (length backups - nat rc) (sort backups) \<and>
            sorted_wrt (<) (delete_calls (snd (snd (applyRetentionPolicy ctx s rc w)))) \<and>
            (\<forall>x \<in> set (delete_calls (snd (snd (applyRetentionPolicy ctx s rc w)))).
               \<forall>y \<in> set backups - set (delete_calls (snd (snd (applyRetentionPolicy ctx s rc w)))).
                 x < y))"
proof -
  have calls: "delete_calls (snd (snd (applyRetentionPolicy ctx s rc w))) =
                 take (length backups - nat rc) backups"
    using applyRetentionPolicy_calls(2) [OF assms] by (simp add: to_delete_def)
  have within: "int (length backups) \<le> rc \<longrightarrow> take (length backups - nat rc) backups = []"
    using assms(2) by simp
  have len: "length (take (length backups - nat rc) backups) = length backups - nat rc"
    by simp
  have all: "rc = 0 \<longrightarrow> take (length backups - nat rc) backups = backups" by simp
  have srt: "sorted_wrt (<) backups \<longrightarrow>
      take (length backups - nat rc) backups = take (length backups - nat rc) (sort backups) \<and>
      sorted_wrt (<) (take (length backups - nat rc) backups) \<and>
      (\<forall>x \<in> set (take (length backups - nat rc) backups).
         \<forall>y \<in> set backups - set (take (length backups - nat rc) backups). x < y)"
    using strict_sorted_take_below_rest [of backups "length backups - nat rc"]
    by (simp add: strict_sorted_sort_id sorted_wrt_take)
  show ?thesis unfolding calls using within len all srt by blast
qed

theorem C1_retention_deletes_oldest_witness:
  "List (LocalStorage_handle (dir_OS ''/backups'' True) backups_dir) () example_dir =
     Inr [''pg-backup_2024-01-01.dump'', ''pg-backup_2024-01-02.sql.gz'',
          ''pg-backup_2024-01-03.dump''] \<and>
   delete_calls (snd (snd (applyRetentionPolicy ()
       (LocalStorage_handle (dir_OS ''/backups'' True) backups_dir) 1 example_dir))) =
     [''pg-backup_2024-01-01.dump'', ''pg-backup_2024-01-02.sql.gz''] \<and>
   delete_calls (snd (snd (applyRetentionPolicy ()
       (LocalStorage_handle (dir_OS ''/backups'' True) backups_dir) 0 example_dir))) =
     [''pg-backup_2024-01-01.dump'', ''pg-backup_2024-01-02.sql.gz'',
      ''pg-backup_2024-01-03.dump''] \<and>
   delete_calls (snd (snd (applyRetentionPolicy ()
       (LocalStorage_handle (dir_OS ''/backups'' True) backups_dir) 3 example_dir))) = []"
proof -
  note l = List_example_dir [of True "()"]
  have s: "sorted_wrt (<) [''pg-backup_2024-01-01.dump'', ''pg-backup_2024-01-02.sql.gz'',
          ''pg-backup_2024-01-03.dump'']" by simp
  have one: "delete_calls (snd (snd (applyRetentionPolicy ()
       (LocalStorage_handle (dir_OS ''/backups'' True) backups_dir) 1 example_dir))) =
     [''pg-backup_2024-01-01.dump'', ''pg-backup_2024-01-02.sql.gz'']"
    using C1_retention_deletes_oldest [OF l, of 1, THEN conjunct2, THEN conjunct1] by simp
  have zero: "delete_calls (snd (snd (applyRetentionPolicy ()
       (LocalStorage_handle (dir_OS ''/backups'' True) backups_dir) 0 example_dir))) =
     [''pg-backup_2024-01-01.dump'', ''pg-backup_2024-01-02.sql.gz'',
      ''pg-backup_2024-01-03.dump'']"
    using C1_retention_deletes_oldest [OF l, of 0, THEN conjunct2, THEN conjunct2, THEN conjunct1]
    by simp
  have three: "delete_calls (snd (snd (applyRetentionPolicy ()
       (LocalStorage_handle (dir_OS ''/backups'' True) backups_dir) 3 example_dir))) = []"
    using C1_retention_deletes_oldest [OF l, of 3, THEN conjunct1] by simp
  show ?thesis using l one zero three by simp
qed

theorem C1_counterexample:
  "List (S3Storage_handle bucket_client \<lparr>bucket = ''db'', backupPrefix = ''''\<rparr>) ()
     [''a/pg-backup_1.dump'', ''b/pg-backup_1.dump''] =
     Inr [''pg-backup_1.dump'', ''pg-backup_1.dump''] \<and>
   delete_calls (snd (snd (applyRetentionPolicy ()
       (S3Storage_handle bucket_client \<lparr>bucket = ''db'', backupPrefix = ''''\<rparr>) 0
       [''a/pg-backup_1.dump'', ''b/pg-backup_1.dump'']))) =
     [''pg-backup_1.dump'', ''pg-backup_1.dump''] \<and>
   \<not> sorted_wrt (<) (delete_calls (snd (snd (applyRetentionPolicy ()
       (S3Storage_handle bucket_client \<lparr>bucket = ''db'', backupPrefix = ''''\<rparr>) 0
       [''a/pg-backup_1.dump'', ''b/pg-backup_1.dump'']))))"
proof -
  have b: "Base ''a/pg-backup_1.dump'' = ''pg-backup_1.dump''"
          "Base ''b/pg-backup_1.dump'' = ''pg-backup_1.dump''"
    by (simp_all add: Base_def)
  have f: "isBackupFile ''pg-backup_1.dump''"
    by (simp add: isBackupFile_def HasPrefix_def HasSuffix_def)
  have l: "List (S3Storage_handle bucket_client \<lparr>bucket = ''db'', backupPrefix = ''''\<rparr>) ()
     [''a/pg-backup_1.dump'', ''b/pg-backup_1.dump''] =
     Inr [''pg-backup_1.dump'', ''pg-backup_1.dump'']"
    by (simp add: S3Storage_handle_def S3Storage_List_def bucket_client_def HasPrefix_def b f)
  show ?thesis
    using l applyRetentionPolicy_calls(2) [OF l, of 0] by (simp add: to_delete_def)
qed

lemma delete_each_pass_ok:
  "List s ctx w = Inr xs \<Longrightarrow> pass_deletes_ok s ctx names w \<Longrightarrow>
   List s ctx (snd (delete_each s ctx names w)) = Inr [x \<leftarrow> xs. x \<notin> set names]"
proof (induction names arbitrary: w xs)
  case Nil
  then show ?case by simp
next
  case (Cons name names)
  have l1: "List s ctx (snd (Delete s ctx name w)) = Inr (removeAll name xs)"
    using Cons.prems by simp
  have ok: "pass_deletes_ok s ctx names (snd (Delete s ctx name w))"
    using Cons.prems(2) by simp
  have "List s ctx (snd (delete_each s ctx names (snd (Delete s ctx name w)))) =
          Inr [x \<leftarrow> removeAll name xs. x \<notin> set names]"
    by (rule Cons.IH [OF l1 ok])
  moreover have "[x \<leftarrow> removeAll name xs. x \<notin> set names] = [x \<leftarrow> xs. x \<notin> set (name # names)]"
    by (induction xs) auto
  ultimately show ?case by simp
qed

lemma distinct_filter_not_in_take:
  "distinct xs \<Longrightarrow> [x \<leftarrow> xs. x \<notin> set (take k xs)] = drop k xs"
proof -
  assume dist: "distinct xs"
  have "distinct (take k xs @ drop k xs)" using dist by simp
  then have disj: "set (take k xs) \<inter> set (drop k xs) = {}"
    unfolding distinct_append by blast
  have "[x \<leftarrow> take k xs @ drop k xs. x \<notin> set (take k xs)] = drop k xs"
    unfolding filter_append using disj by (auto simp add: filter_empty_conv filter_id_conv)
  then show ?thesis by simp
qed

lemma strict_sorted_rest_above:
  assumes "sorted_wrt (<) (xs :: string list)"
  shows "\<forall>x \<in> set xs - set (drop k xs). \<forall>y \<in> set (drop k xs). x < y"
proof (intro ballI)
  fix x y assume x: "x \<in> set xs - set (drop k xs)" and y: "y \<in> set (drop k xs)"
  have "set xs = set (take k xs) \<union> set (drop k xs)"
    by (metis append_take_drop_id set_append)
  then have "x \<in> set (take k xs)" using x by blast
  moreover have "sorted_wrt (<) (take k xs @ drop k xs)" using assms by simp
  then have "\<forall>a \<in> set (take k xs). \<forall>b \<in> set (drop k xs). a < b"
    unfolding sorted_wrt_append by blast
  ultimately show "x < y" using y by blast
qed

text \<open>
  Claim C2, as amended. Let the listing before the pass be strictly ascending with
  \<open>priorCount\<close> names, and let every \<^verbatim>\<open>Delete\<close> call of the pass succeed and remove
  exactly the named artifact from what \<^verbatim>\<open>List\<close> reports. Then after the pass exactly
  \<open>min priorCount retentionCount\<close> artifacts remain, they are the last entries of the
  prior listing, and every removed name is below every retained one.
\<close>

theorem C2_retained_are_newest_when_deletes_succeed:
  assumes listing: "List s ctx w = Inr backups"
    and rc: "0 \<le> rc"
    and ascending: "sorted_wrt (<) backups"
    and succeed: "pass_deletes_ok s ctx (to_delete backups rc) w"
  shows "\<exists>remaining.
           List s ctx (fst (snd (applyRetentionPolicy ctx s rc w))) = Inr remaining \<and>
           remaining = drop (length backups - nat rc) backups \<and>
           length remaining = min (length backups) (nat rc) \<and>
           (\<forall>x \<in> set backups - set remaining. \<forall>y \<in> set remaining. x < y)"
proof -
  have st: "fst (snd (applyRetentionPolicy ctx s rc w)) =
              snd (delete_each s ctx (to_delete backups rc) w)"
    by (rule applyRetentionPolicy_calls(4) [OF listing rc])
  have "List s ctx (snd (delete_each s ctx (to_delete backups rc) w)) =
          Inr [x \<leftarrow> backups. x \<notin> set (to_delete backups rc)]"
    by (rule delete_each_pass_ok [OF listing succeed])
  moreover have "[x \<leftarrow> backups. x \<notin> set (to_delete backups rc)] =
                   drop (length backups - nat rc) backups"
    unfolding to_delete_def
    by (rule distinct_filter_not_in_take) (use ascending strict_sorted_iff in blast)
  moreover have "length (drop (length backups - nat rc) backups) = min (length backups) (nat rc)"
    by simp
  ultimately show ?thesis
    using st strict_sorted_rest_above [OF ascending, of "length backups - nat rc"] by simp
qed

lemma read_only_Delete:
  "Delete (LocalStorage_handle (dir_OS root False) s) ctx name fs =
     (Some (Wrap ''failed to delete backup'' (OSError ''permission denied'')), fs)"
  by (simp add: LocalStorage_handle_def LocalStorage_Delete_def dir_OS_def)

lemma read_only_delete_each:
  "snd (delete_each (LocalStorage_handle (dir_OS root False) s) ctx names fs) = fs"
  by (induction names) (simp_all add: read_only_Delete)

lemma read_only_delete_results:
  "delete_results (LocalStorage_handle (dir_OS root False) s) ctx names fs =
     map (\<lambda>n. (n, Some (Wrap ''failed to delete backup'' (OSError ''permission denied'')))) names"
  by (induction names) (simp_all add: read_only_Delete)

theorem C2_counterexample:
  "List (LocalStorage_handle (dir_OS ''/backups'' False) backups_dir) () example_dir =
     Inr [''pg-backup_2024-01-01.dump'', ''pg-backup_2024-01-02.sql.gz'',
          ''pg-backup_2024-01-03.dump''] \<and>
   List (LocalStorage_handle (dir_OS ''/backups'' False) backups_dir) ()
     (fst (snd (applyRetentionPolicy ()
        (LocalStorage_handle (dir_OS ''/backups'' False) backups_dir) 1 example_dir))) =
     Inr [''pg-backup_2024-01-01.dump'', ''pg-backup_2024-01-02.sql.gz'',
          ''pg-backup_2024-01-03.dump''] \<and>
   \<not> length [''pg-backup_2024-01-01.dump'', ''pg-backup_2024-01-02.sql.gz'',
             ''pg-backup_2024-01-03.dump''] \<le> min (3::nat) (nat 1)"
proof -
  note l = List_example_dir [of False "()"]
  have "fst (snd (applyRetentionPolicy ()
        (LocalStorage_handle (dir_OS ''/backups'' False) backups_dir) 1 example_dir)) = example_dir"
    using applyRetentionPolicy_calls(4) [OF l, of 1] by (simp add: read_only_delete_each)
  then show ?thesis using l by simp
qed

lemma writable_Delete:
  "Delete (LocalStorage_handle (dir_OS ''/backups'' True) backups_dir) ctx name fs =
     (if \<exists>entry \<in> set fs. name = entry_Name entry
      then (None, [entry \<leftarrow> fs. entry_Name entry \<noteq> name])
      else (Some (Wrap ''failed to delete backup'' (OSError ''no such file or directory'')), fs))"
  by (auto simp add: LocalStorage_handle_def LocalStorage_Delete_def dir_OS_def backups_dir_def
      intro: filter_cong)

theorem C2_retained_are_newest_when_deletes_succeed_witness:
  "List (LocalStorage_handle (dir_OS ''/backups'' True) backups_dir) () example_dir =
     Inr [''pg-backup_2024-01-01.dump'', ''pg-backup_2024-01-02.sql.gz'',
          ''pg-backup_2024-01-03.dump''] \<and>
   List (LocalStorage_handle (dir_OS ''/backups'' True) backups_dir) ()
     (fst (snd (applyRetentionPolicy ()
        (LocalStorage_handle (dir_OS ''/backups'' True) backups_dir) 1 example_dir))) =
     Inr [''pg-backup_2024-01-03.dump''] \<and>
   List (S3Storage_handle bucket_client \<lparr>bucket = ''db'', backupPrefix = ''''\<rparr>) ()
     (fst (snd (applyRetentionPolicy ()
        (S3Storage_handle bucket_client \<lparr>bucket = ''db'', backupPrefix = ''''\<rparr>) 1
        [''pg-backup_1.dump'', ''pg-backup_2.dump'']))) =
     Inr [''pg-backup_2.dump'']"
proof -
  note l = List_example_dir [of True "()"]
  have s: "sorted_wrt (<) [''pg-backup_2024-01-01.dump'', ''pg-backup_2024-01-02.sql.gz'',
          ''pg-backup_2024-01-03.dump'']" by simp
  have ok: "pass_deletes_ok (LocalStorage_handle (dir_OS ''/backups'' True) backups_dir) ()
         (to_delete [''pg-backup_2024-01-01.dump'', ''pg-backup_2024-01-02.sql.gz'',
                     ''pg-backup_2024-01-03.dump''] 1) example_dir"
    unfolding to_delete_def
    by (simp add: writable_Delete example_dir_def)
      (simp add: LocalStorage_handle_def LocalStorage_List_def dir_OS_def backups_dir_def
        isBackupFile_examples)
  have local: "List (LocalStorage_handle (dir_OS ''/backups'' True) backups_dir) ()
     (fst (snd (applyRetentionPolicy ()
        (LocalStorage_handle (dir_OS ''/backups'' True) backups_dir) 1 example_dir))) =
     Inr [''pg-backup_2024-01-03.dump'']"
    using C2_retained_are_newest_when_deletes_succeed [OF l _ s ok] by simp
  have f: "isBackupFile ''pg-backup_1.dump''" "isBackupFile ''pg-backup_2.dump''"
    by (simp_all add: isBackupFile_def HasPrefix_def HasSuffix_def)
  have b: "Base ''pg-backup_1.dump'' = ''pg-backup_1.dump''"
          "Base ''pg-backup_2.dump'' = ''pg-backup_2.dump''"
    by (simp_all add: Base_def)
  have l3: "List (S3Storage_handle bucket_client \<lparr>bucket = ''db'', backupPrefix = ''''\<rparr>) ()
     [''pg-backup_1.dump'', ''pg-backup_2.dump''] =
     Inr [''pg-backup_1.dump'', ''pg-backup_2.dump'']"
    by (simp add: S3Storage_handle_def S3Storage_List_def bucket_client_def HasPrefix_def b f)
  have s3: "sorted_wrt (<) [''pg-backup_1.dump'', ''pg-backup_2.dump'']" by simp
  have ok3: "pass_deletes_ok (S3Storage_handle bucket_client \<lparr>bucket = ''db'', backupPrefix = ''''\<rparr>)
     () (to_delete [''pg-backup_1.dump'', ''pg-backup_2.dump''] 1)
     [''pg-backup_1.dump'', ''pg-backup_2.dump'']"
    unfolding to_delete_def
    by (simp add: S3Storage_handle_def S3Storage_List_def S3Storage_Delete_def getKey_def
        bucket_client_def HasPrefix_def b f)
  have s3r: "List (S3Storage_handle bucket_client \<lparr>bucket = ''db'', backupPrefix = ''''\<rparr>) ()
     (fst (snd (applyRetentionPolicy ()
        (S3Storage_handle bucket_client \<lparr>bucket = ''db'', backupPrefix = ''''\<rparr>) 1
        [''pg-backup_1.dump'', ''pg-backup_2.dump'']))) =
     Inr [''pg-backup_2.dump'']"
    using C2_retained_are_newest_when_deletes_succeed [OF l3 _ s3 ok3] by simp
  show ?thesis using l local s3r by simp
qed

theorem C5_delete_failures_do_not_abort_witness:
  "fst (applyRetentionPolicy () (LocalStorage_handle (dir_OS ''/backups'' False) backups_dir)
          1 example_dir) = Return None \<and>
   delete_calls (snd (snd (applyRetentionPolicy ()
      (LocalStorage_handle (dir_OS ''/backups'' False) backups_dir) 1 example_dir))) =
     [''pg-backup_2024-01-01.dump'', ''pg-backup_2024-01-02.sql.gz''] \<and>
   warnings (snd (snd (applyRetentionPolicy ()
      (LocalStorage_handle (dir_OS ''/backups'' False) backups_dir) 1 example_dir))) =
     [(''pg-backup_2024-01-01.dump'',
       Wrap ''failed to delete backup'' (OSError ''permission denied'')),
      (''pg-backup_2024-01-02.sql.gz'',
       Wrap ''failed to delete backup'' (OSError ''permission denied''))]"
  using C5_delete_failures_do_not_abort [OF List_example_dir [of False "()"], of 1]
  by (simp add: to_delete_def read_only_Delete)

theorem C10_only_list_error_is_returned_witness:
  "fst (applyRetentionPolicy () (LocalStorage_handle (dir_OS ''/backups'' False) backups_dir)
          1 example_dir) = Return None"
  using C10_only_list_error_is_returned
    [of 1 "LocalStorage_handle (dir_OS ''/backups'' False) backups_dir" "()" example_dir]
    List_example_dir [of False "()"]
  by simp

lemma HasPrefix_append: "HasPrefix (p @ rest) p"
  by (simp add: HasPrefix_def)

lemma HasSuffix_append: "HasSuffix (rest @ e) e"
  by (simp add: HasSuffix_def)

lemma prefix_suffix_split:
  assumes p: "HasPrefix name p" and e: "HasSuffix name e" and hd: "e \<noteq> []" "hd e \<notin> set p"
  shows "\<exists>middle. name = p @ middle @ e"
proof -
  have np: "name = p @ drop (length p) name"
    using p unfolding HasPrefix_def by (metis append_take_drop_id)
  have ne: "name = take (length name - length e) name @ e"
    using e unfolding HasSuffix_def by (metis append_take_drop_id)
  have "p @ drop (length p) name = take (length name - length e) name @ e"
    using np ne by simp
  then obtain us where
    "(p = take (length name - length e) name @ us \<and> us @ drop (length p) name = e) \<or>
     (p @ us = take (length name - length e) name \<and> drop (length p) name = us @ e)"
    unfolding append_eq_append_conv2 by blast
  then show ?thesis
  proof
    assume a: "p = take (length name - length e) name @ us \<and> us @ drop (length p) name = e"
    have "us = []"
    proof (rule ccontr)
      assume "us \<noteq> []"
      then have "hd e = hd us" using a by (metis hd_append2)
      moreover have "hd us \<in> set us" using \<open>us \<noteq> []\<close> by simp
      moreover have "set us \<subseteq> set p" using a by (metis set_append sup_ge2)
      ultimately show False using hd(2) by auto
    qed
    then have "name = p @ [] @ e" using a ne by (metis append_Nil append_Nil2)
    then show ?thesis by blast
  next
    assume "p @ us = take (length name - length e) name \<and> drop (length p) name = us @ e"
    then have "name = p @ us @ e" using np by metis
    then show ?thesis by blast
  qed
qed

lemma isBackupFile_iff: "isBackupFile name \<longleftrightarrow> matches_convention name"
proof
  assume b: "isBackupFile name"
  then have p: "HasPrefix name ''pg-backup_''" by (simp add: isBackupFile_def)
  from b consider "HasSuffix name ''.dump''" | "HasSuffix name ''.sql''"
    | "HasSuffix name ''.sql.gz''" | "HasSuffix name ''.tar''"
    by (auto simp add: isBackupFile_def)
  then show "matches_convention name"
  proof cases
    case 1
    then show ?thesis using prefix_suffix_split [OF p 1]
      by (simp add: matches_convention_def approved_extensions_def) blast
  next
    case 2
    then show ?thesis using prefix_suffix_split [OF p 2]
      by (simp add: matches_convention_def approved_extensions_def) blast
  next
    case 3
    then show ?thesis using prefix_suffix_split [OF p 3]
      by (simp add: matches_convention_def approved_extensions_def) blast
  next
    case 4
    then show ?thesis using prefix_suffix_split [OF p 4]
      by (simp add: matches_convention_def approved_extensions_def) blast
  qed
next
  assume "matches_convention name"
  then obtain middle ext where ext: "ext \<in> set approved_extensions"
    and n: "name = ''pg-backup_'' @ middle @ ext"
    unfolding matches_convention_def by blast
  have "HasPrefix name ''pg-backup_''" unfolding n by (rule HasPrefix_append)
  moreover have "HasSuffix name ext"
    using HasSuffix_append [of "''pg-backup_'' @ middle" ext] by (simp add: n)
  ultimately show "isBackupFile name"
    using ext by (auto simp add: isBackupFile_def approved_extensions_def)
qed

text \<open>
  Claim C7, as amended. For every directory contents that \<^verbatim>\<open>os.ReadDir\<close> gives,
  \<^verbatim>\<open>LocalStorage.List\<close> returns exactly the names of the entries that are not directories
  and match the naming convention (the prefix \<^verbatim>\<open>pg-backup_\<close> and one of the approved
  extensions), each as often as it is an entry, sorted ascending by name. The name
  \<^verbatim>\<open>pg-backup_2024-01-01.dump\<close> matches the convention; \<^verbatim>\<open>readme.txt\<close> and
  \<^verbatim>\<open>pg-backup_2024-01-01.dump.tmp\<close> do not.
\<close>

theorem C7_List_names_of_backup_files:
  assumes "ReadDir os (basePath s) fs = Inr entries"
  shows "\<exists>names.
           LocalStorage_List os s ctx fs = Inr names \<and>
           sorted names \<and>
           mset names =
             mset (map entry_Name
                    (filter (\<lambda>entry. \<not> entry_IsDir entry \<and> matches_convention (entry_Name entry))
                       entries)) \<and>
           matches_convention ''pg-backup_2024-01-01.dump'' \<and>
           \<not> matches_convention ''readme.txt'' \<and>
           \<not> matches_convention ''pg-backup_2024-01-01.dump.tmp''"
proof -
  have ex: "matches_convention ''pg-backup_2024-01-01.dump''"
    "\<not> matches_convention ''readme.txt''"
    "\<not> matches_convention ''pg-backup_2024-01-01.dump.tmp''"
    using isBackupFile_examples(1,2,5) by (simp_all add: isBackupFile_iff)
  show ?thesis
    using assms ex by (simp add: LocalStorage_List_def isBackupFile_iff)
qed

theorem C7_List_names_of_backup_files_witness:
  "ReadDir (dir_OS ''/backups'' True) (basePath backups_dir) example_dir = Inr example_dir \<and>
   LocalStorage_List (dir_OS ''/backups'' True) backups_dir () example_dir =
     Inr [''pg-backup_2024-01-01.dump'', ''pg-backup_2024-01-02.sql.gz'',
          ''pg-backup_2024-01-03.dump''] \<and>
   sorted [''pg-backup_2024-01-01.dump'', ''pg-backup_2024-01-02.sql.gz'',
           ''pg-backup_2024-01-03.dump'']"
proof -
  have r: "ReadDir (dir_OS ''/backups'' True) (basePath backups_dir) example_dir = Inr example_dir"
    by (simp add: dir_OS_def backups_dir_def)
  have l: "LocalStorage_List (dir_OS ''/backups'' True) backups_dir () example_dir =
     Inr [''pg-backup_2024-01-01.dump'', ''pg-backup_2024-01-02.sql.gz'',
          ''pg-backup_2024-01-03.dump'']"
    using List_example_dir [of True "()"] by (simp add: LocalStorage_handle_def)
  obtain names where
    "LocalStorage_List (dir_OS ''/backups'' True) backups_dir () example_dir = Inr names"
    "sorted names"
    using C7_List_names_of_backup_files [OF r, of "()"] by blast
  then show ?thesis using r l by simp
qed

theorem C7_counterexample:
  "ReadDir (dir_OS ''/backups'' True) (basePath backups_dir)
     [\<lparr>entry_Name = ''pg-backup_2024-01-01.dump'', entry_IsDir = True\<rparr>,
      \<lparr>entry_Name = ''readme.txt'', entry_IsDir = False\<rparr>] =
     Inr [\<lparr>entry_Name = ''pg-backup_2024-01-01.dump'', entry_IsDir = True\<rparr>,
          \<lparr>entry_Name = ''readme.txt'', entry_IsDir = False\<rparr>] \<and>
   isBackupFile ''pg-backup_2024-01-01.dump'' \<and>
   LocalStorage_List (dir_OS ''/backups'' True) backups_dir ()
     [\<lparr>entry_Name = ''pg-backup_2024-01-01.dump'', entry_IsDir = True\<rparr>,
      \<lparr>entry_Name = ''readme.txt'', entry_IsDir = False\<rparr>] = Inr []"
  by (simp add: LocalStorage_List_def dir_OS_def backups_dir_def isBackupFile_examples)

lemma select_Upload_Ready:
  "select_Upload (Ready e) d pick =
     (case d of Ready r \<Rightarrow> (case pick of Pick_ctx \<Rightarrow> Sel_ctx e | Pick_done \<Rightarrow> Sel_done r)
              | _ \<Rightarrow> Sel_ctx e)"
  by (cases d) simp_all

text \<open>
  Claim C4, as amended. \<^verbatim>\<open>Upload\<close> invoked with an already-expired context never stays
  blocked, and what it returns is decided case by case. If opening the source fails, it
  returns that failure; if the source opens and creating the destination fails, it returns
  that failure. If both succeed and the copy has not completed by the time of the
  \<^verbatim>\<open>select\<close>, it returns the context's error. If both succeed and the copy has
  completed, it returns the context's error when the \<^verbatim>\<open>select\<close> takes the context's
  case, and the outcome of the copy (\<^verbatim>\<open>nil\<close>, or the wrapped copy error) when the
  \<^verbatim>\<open>select\<close> takes the completion case.
\<close>

theorem C4_Upload_with_expired_context:
  "fst (LocalStorage_Upload os pick s (Ready e) sourcePath backupName fs) \<noteq> Blocked \<and>
   (\<forall>err. Open os sourcePath fs = Some err \<longrightarrow>
      fst (LocalStorage_Upload os pick s (Ready e) sourcePath backupName fs) =
        Return (Some (Wrap ''failed to open source file'' err))) \<and>
   (\<forall>err. Open os sourcePath fs = None \<and>
          Create os (Join os (basePath s) backupName) fs = Some err \<longrightarrow>
      fst (LocalStorage_Upload os pick s (Ready e) sourcePath backupName fs) =
        Return (Some (Wrap ''failed to create destination file'' err))) \<and>
   (Open os sourcePath fs = None \<and>
    Create os (Join os (basePath s) backupName) fs = None \<and>
    (\<forall>r. Copy os (Join os (basePath s) backupName) sourcePath fs \<noteq> Ready r) \<longrightarrow>
      fst (LocalStorage_Upload os pick s (Ready e) sourcePath backupName fs) =
        Return (Some e)) \<and>
   (\<forall>r. Open os sourcePath fs = None \<and>
        Create os (Join os (basePath s) backupName) fs = None \<and>
        Copy os (Join os (basePath s) backupName) sourcePath fs = Ready r \<and>
        pick = Pick_ctx \<longrightarrow>
      fst (LocalStorage_Upload os pick s (Ready e) sourcePath backupName fs) =
        Return (Some e)) \<and>
   (\<forall>r. Open os sourcePath fs = None \<and>
        Create os (Join os (basePath s) backupName) fs = None \<and>
        Copy os (Join os (basePath s) backupName) sourcePath fs = Ready r \<and>
        pick = Pick_done \<longrightarrow>
      fst (LocalStorage_Upload os pick s (Ready e) sourcePath backupName fs) =
        Return (map_option (Wrap ''failed to copy file'') r))"
  by (auto simp add: LocalStorage_Upload_def Let_def select_Upload_Ready
      split: option.splits signal.splits choice.splits)

theorem C4_Upload_with_expired_context_witness:
  "fst (LocalStorage_Upload ((dir_OS ''/backups'' True)\<lparr>Copy := \<lambda>dst src fs. Later None\<rparr>)
     Pick_done backups_dir (Ready DeadlineExceeded) ''/tmp/pg-backup_2024-01-04.dump''
     ''pg-backup_2024-01-04.dump'' example_dir) = Return (Some DeadlineExceeded) \<and>
   fst (LocalStorage_Upload
     ((dir_OS ''/backups'' True)\<lparr>Open := \<lambda>path fs. Some (OSError ''no such file or directory'')\<rparr>)
     Pick_ctx backups_dir (Ready DeadlineExceeded) ''/tmp/missing.dump''
     ''pg-backup_2024-01-04.dump'' example_dir) =
     Return (Some (Wrap ''failed to open source file'' (OSError ''no such file or directory''))) \<and>
   fst (LocalStorage_Upload (dir_OS ''/backups'' False) Pick_ctx backups_dir
     (Ready DeadlineExceeded) ''/tmp/pg-backup_2024-01-04.dump''
     ''pg-backup_2024-01-04.dump'' example_dir) =
     Return (Some (Wrap ''failed to create destination file'' (OSError ''permission denied''))) \<and>
   fst (LocalStorage_Upload (dir_OS ''/backups'' True) Pick_ctx backups_dir
     (Ready DeadlineExceeded) ''/tmp/pg-backup_2024-01-04.dump''
     ''pg-backup_2024-01-04.dump'' example_dir) = Return (Some DeadlineExceeded) \<and>
   fst (LocalStorage_Upload (dir_OS ''/backups'' True) Pick_done backups_dir
     (Ready DeadlineExceeded) ''/tmp/pg-backup_2024-01-04.dump''
     ''pg-backup_2024-01-04.dump'' example_dir) = Return None"
proof -
  have later: "fst (LocalStorage_Upload ((dir_OS ''/backups'' True)\<lparr>Copy := \<lambda>dst src fs. Later None\<rparr>)
     Pick_done backups_dir (Ready DeadlineExceeded) ''/tmp/pg-backup_2024-01-04.dump''
     ''pg-backup_2024-01-04.dump'' example_dir) = Return (Some DeadlineExceeded)"
    using C4_Upload_with_expired_context
      [of "(dir_OS ''/backups'' True)\<lparr>Copy := \<lambda>dst src fs. Later None\<rparr>" Pick_done backups_dir
          DeadlineExceeded "''/tmp/pg-backup_2024-01-04.dump''" "''pg-backup_2024-01-04.dump''"
          example_dir, THEN conjunct2, THEN conjunct2, THEN conjunct2, THEN conjunct1]
    by (simp add: dir_OS_def)
  have missing: "fst (LocalStorage_Upload
     ((dir_OS ''/backups'' True)\<lparr>Open := \<lambda>path fs. Some (OSError ''no such file or directory'')\<rparr>)
     Pick_ctx backups_dir (Ready DeadlineExceeded) ''/tmp/missing.dump''
     ''pg-backup_2024-01-04.dump'' example_dir) =
     Return (Some (Wrap ''failed to open source file'' (OSError ''no such file or directory'')))"
    using C4_Upload_with_expired_context
      [of "(dir_OS ''/backups'' True)\<lparr>Open := \<lambda>path fs. Some (OSError ''no such file or directory'')\<rparr>"
          Pick_ctx backups_dir DeadlineExceeded "''/tmp/missing.dump''"
          "''pg-backup_2024-01-04.dump''" example_dir, THEN conjunct2, THEN conjunct1]
    by (simp add: dir_OS_def)
  have create: "fst (LocalStorage_Upload (dir_OS ''/backups'' False) Pick_ctx backups_dir
     (Ready DeadlineExceeded) ''/tmp/pg-backup_2024-01-04.dump''
     ''pg-backup_2024-01-04.dump'' example_dir) =
     Return (Some (Wrap ''failed to create destination file'' (OSError ''permission denied'')))"
    using C4_Upload_with_expired_context
      [of "dir_OS ''/backups'' False" Pick_ctx backups_dir DeadlineExceeded
          "''/tmp/pg-backup_2024-01-04.dump''" "''pg-backup_2024-01-04.dump''" example_dir,
          THEN conjunct2, THEN conjunct2, THEN conjunct1]
    by (simp add: dir_OS_def)
  have takes_ctx: "fst (LocalStorage_Upload (dir_OS ''/backups'' True) Pick_ctx backups_dir
     (Ready DeadlineExceeded) ''/tmp/pg-backup_2024-01-04.dump''
     ''pg-backup_2024-01-04.dump'' example_dir) = Return (Some DeadlineExceeded)"
    using C4_Upload_with_expired_context
      [of "dir_OS ''/backups'' True" Pick_ctx backups_dir DeadlineExceeded
          "''/tmp/pg-backup_2024-01-04.dump''" "''pg-backup_2024-01-04.dump''" example_dir,
          THEN conjunct2, THEN conjunct2, THEN conjunct2, THEN conjunct2, THEN conjunct1]
    by (simp add: dir_OS_def)
  have takes_done: "fst (LocalStorage_Upload (dir_OS ''/backups'' True) Pick_done backups_dir
     (Ready DeadlineExceeded) ''/tmp/pg-backup_2024-01-04.dump''
     ''pg-backup_2024-01-04.dump'' example_dir) = Return None"
    using C4_Upload_with_expired_context
      [of "dir_OS ''/backups'' True" Pick_done backups_dir DeadlineExceeded
          "''/tmp/pg-backup_2024-01-04.dump''" "''pg-backup_2024-01-04.dump''" example_dir,
          THEN conjunct2, THEN conjunct2, THEN conjunct2, THEN conjunct2, THEN conjunct2]
    by (simp add: dir_OS_def)
  show ?thesis using later missing create takes_ctx takes_done by simp
qed

theorem C4_counterexample:
  "LocalStorage_Upload
     ((dir_OS ''/backups'' True)\<lparr>Open := \<lambda>path fs. Some (OSError ''no such file or directory'')\<rparr>)
     Pick_ctx backups_dir (Ready DeadlineExceeded) ''/tmp/missing.dump''
     ''pg-backup_2024-01-04.dump'' example_dir =
     (Return (Some (Wrap ''failed to open source file'' (OSError ''no such file or directory''))),
      []) \<and>
   \<not> is_cancellation (Wrap ''failed to open source file'' (OSError ''no such file or directory'')) \<and>
   LocalStorage_Upload (dir_OS ''/backups'' True) Pick_done backups_dir (Ready DeadlineExceeded)
     ''/tmp/pg-backup_2024-01-04.dump'' ''pg-backup_2024-01-04.dump'' example_dir =
     (Return None, [])"
  by (simp add: LocalStorage_Upload_def dir_OS_def Let_def)

lemma run_calls_append: "run_calls (xs @ ys) = run_calls xs @ run_calls ys"
  by (induction xs rule: run_calls.induct) simp_all

lemma run_failure_logs_append:
  "run_failure_logs (xs @ ys) = run_failure_logs xs @ run_failure_logs ys"
  by (induction xs rule: run_failure_logs.induct) simp_all

lemma scheduler_registered_append:
  "scheduler_registered (xs @ ys) \<longleftrightarrow> scheduler_registered xs \<or> scheduler_registered ys"
  by (induction xs rule: scheduler_registered.induct) simp_all

lemma scheduler_started_append:
  "scheduler_started (xs @ ys) \<longleftrightarrow> scheduler_started xs \<or> scheduler_started ys"
  by (induction xs rule: scheduler_started.induct) simp_all

lemma config_lines_trace:
  "run_calls (map (\<lambda>v. Log ''  %s'' [S v]) vs) = []"
  "run_failure_logs (map (\<lambda>v. Log ''  %s'' [S v]) vs) = []"
  "\<not> scheduler_registered (map (\<lambda>v. Log ''  %s'' [S v]) vs)"
  "\<not> scheduler_started (map (\<lambda>v. Log ''  %s'' [S v]) vs)"
  by (induction vs) simp_all

lemmas trace_append =
  run_calls_append run_failure_logs_append scheduler_registered_append scheduler_started_append

lemma cron_job_trace:
  "run_calls (fst (cron_job b cfg st)) = [WithTimeout Background (BackupTimeout cfg)]"
  "run_failure_logs (fst (cron_job b cfg st)) =
     (case fst (Backup_Run b (WithTimeout Background (BackupTimeout cfg)) st) of
        Some e \<Rightarrow> [e] | None \<Rightarrow> [])"
  "\<not> scheduler_registered (fst (cron_job b cfg st))"
  "\<not> scheduler_started (fst (cron_job b cfg st))"
  "snd (cron_job b cfg st) = snd (Backup_Run b (WithTimeout Background (BackupTimeout cfg)) st)"
  by (simp_all add: cron_job_def Let_def split: prod.splits option.splits)

lemma serve_Tick:
  "serve b cfg (Tick # inputs) st =
     (fst (cron_job b cfg st) @ fst (serve b cfg inputs (snd (cron_job b cfg st))),
      snd (serve b cfg inputs (snd (cron_job b cfg st))))"
  by (simp split: prod.splits)

lemma serve_run_calls:
  "run_calls (fst (serve b cfg inputs st)) =
     replicate (ticks_before_signal inputs) (WithTimeout Background (BackupTimeout cfg))"
proof (induction inputs arbitrary: st)
  case Nil
  show ?case by simp
next
  case (Cons i inputs)
  show ?case
    by (cases i) (simp_all add: serve_Tick trace_append cron_job_trace Cons.IH del: serve.simps(2))
qed

lemma serve_run_failure_logs:
  "run_failure_logs (fst (serve b cfg inputs st)) =
     [e. Some e \<leftarrow> tick_results b cfg (ticks_before_signal inputs) st]"
proof (induction inputs arbitrary: st)
  case Nil
  show ?case by simp
next
  case (Cons i inputs)
  show ?case
    by (cases i)
      (simp_all add: serve_Tick trace_append cron_job_trace Cons.IH del: serve.simps(2)
        split: option.splits)
qed

lemma serve_outcome:
  "fst (snd (serve b cfg inputs st)) = (if signalled inputs then Return None else Blocked)"
proof (induction inputs arbitrary: st)
  case Nil
  show ?case by simp
next
  case (Cons i inputs)
  show ?case
    by (cases i) (simp_all add: serve_Tick Cons.IH del: serve.simps(2))
qed

lemma initial_backup_trace:
  "run_calls (fst (initial_backup b cfg st)) = (if BackupOnStart cfg then [Background] else [])"
  "run_failure_logs (fst (initial_backup b cfg st)) =
     (if BackupOnStart cfg
      then (case fst (Backup_Run b Background st) of Some e \<Rightarrow> [e] | None \<Rightarrow> [])
      else [])"
  "\<not> scheduler_registered (fst (initial_backup b cfg st))"
  "\<not> scheduler_started (fst (initial_backup b cfg st))"
  "snd (initial_backup b cfg st) =
     (if BackupOnStart cfg then snd (Backup_Run b Background st) else st)"
  by (simp_all add: initial_backup_def Let_def split: prod.splits option.splits)

lemma schedule_trace:
  assumes "AddFunc deps (BackupCron cfg) = Inr entryID"
  shows "run_calls (fst (schedule b deps cfg inputs st)) =
           replicate (ticks_before_signal inputs) (WithTimeout Background (BackupTimeout cfg))"
    and "run_failure_logs (fst (schedule b deps cfg inputs st)) =
           [e. Some e \<leftarrow> tick_results b cfg (ticks_before_signal inputs) st]"
    and "scheduler_registered (fst (schedule b deps cfg inputs st))"
    and "scheduler_started (fst (schedule b deps cfg inputs st))"
    and "fst (snd (schedule b deps cfg inputs st)) =
           (if signalled inputs then Return None else Blocked)"
proof -
  have s: "schedule b deps cfg inputs st =
     ([Cron_AddFunc (BackupCron cfg),
       Log ''Cron job registered with ID: %d'' [I entryID],
       Cron_Start,
       Log ''Cron scheduler started, waiting for scheduled jobs...'' [],
       Log ''Next backup scheduled at: %s'' [S (Next deps)]] @ fst (serve b cfg inputs st),
      snd (serve b cfg inputs st))"
    using assms by (simp add: schedule_def split: prod.splits)
  show "run_calls (fst (schedule b deps cfg inputs st)) =
           replicate (ticks_before_signal inputs) (WithTimeout Background (BackupTimeout cfg))"
    unfolding s by (simp add: serve_run_calls)
  show "run_failure_logs (fst (schedule b deps cfg inputs st)) =
           [e. Some e \<leftarrow> tick_results b cfg (ticks_before_signal inputs) st]"
    unfolding s by (simp add: serve_run_failure_logs)
  show "scheduler_registered (fst (schedule b deps cfg inputs st))" unfolding s by simp
  show "scheduler_started (fst (schedule b deps cfg inputs st))" unfolding s by simp
  show "fst (snd (schedule b deps cfg inputs st)) =
           (if signalled inputs then Return None else Blocked)"
    unfolding s by (simp add: serve_outcome)
qed

text \<open>What \<open>Run\<close> is once the startup steps have succeeded.\<close>

lemma Run_after_startup:
  assumes "Backup_Config b st = (Inr cfg, st1)"
    and "New deps cfg = Inr store"
    and "Backup_SetStorage b store st1 = (None, st2)"
    and "Backup_TestConnection b Background st2 = (None, st3)"
  shows "\<exists>startup_events.
           run_calls startup_events = [] \<and> run_failure_logs startup_events = [] \<and>
           \<not> scheduler_registered startup_events \<and> \<not> scheduler_started startup_events \<and>
           Run b deps inputs st =
             (startup_events @ fst (initial_backup b cfg st3) @
                fst (schedule b deps cfg inputs (snd (initial_backup b cfg st3))),
              snd (schedule b deps cfg inputs (snd (initial_backup b cfg st3))))"
  using assms
  by (simp add: Run_def Let_def trace_append config_lines_trace split: prod.splits)

lemma Run_connection_failure:
  assumes "Backup_Config b st = (Inr cfg, st1)"
    and "New deps cfg = Inr store"
    and "Backup_SetStorage b store st1 = (None, st2)"
    and "Backup_TestConnection b Background st2 = (Some err, st3)"
  shows "\<exists>startup_events.
           run_calls startup_events = [] \<and>
           \<not> scheduler_registered startup_events \<and> \<not> scheduler_started startup_events \<and>
           Run b deps inputs st =
             (startup_events, Return (Some (Fmt ''failed to connect to PostgreSQL'' err)), st3)"
  using assms
  by (simp add: Run_def Let_def trace_append config_lines_trace)

text \<open>
  Claim C8. If \<^verbatim>\<open>TestConnection\<close> fails during startup, \<^verbatim>\<open>Run\<close> returns a non-nil
  error, the job is never registered with the scheduler, the scheduler is never started,
  and \<^verbatim>\<open>b.Run\<close> is never called: for every configuration, run-on-startup or not, and
  whatever ticks or signals would arrive.
\<close>

theorem C8_connection_failure_aborts_startup:
  assumes "Backup_Config b st = (Inr cfg, st1)"
    and "New deps cfg = Inr store"
    and "Backup_SetStorage b store st1 = (None, st2)"
    and "Backup_TestConnection b Background st2 = (Some err, st3)"
  shows "fst (snd (Run b deps inputs st)) =
           Return (Some (Fmt ''failed to connect to PostgreSQL'' err)) \<and>
         \<not> scheduler_registered (fst (Run b deps inputs st)) \<and>
         \<not> scheduler_started (fst (Run b deps inputs st)) \<and>
         run_calls (fst (Run b deps inputs st)) = []"
proof -
  obtain startup_events where
    "run_calls startup_events = []"
    "\<not> scheduler_registered startup_events" "\<not> scheduler_started startup_events"
    "Run b deps inputs st =
       (startup_events, Return (Some (Fmt ''failed to connect to PostgreSQL'' err)), st3)"
    using Run_connection_failure [OF assms, of inputs] by blast
  then show ?thesis by simp
qed

theorem C8_connection_failure_aborts_startup_witness:
  "BackupOnStart example_config \<and>
   fst (snd (Run (stub_Backup example_config (Some (OSError ''connection refused'')) None)
               stub_Deps [Tick, Tick] ())) =
     Return (Some (Fmt ''failed to connect to PostgreSQL'' (OSError ''connection refused''))) \<and>
   \<not> scheduler_registered
       (fst (Run (stub_Backup example_config (Some (OSError ''connection refused'')) None)
               stub_Deps [Tick, Tick] ())) \<and>
   \<not> scheduler_started
       (fst (Run (stub_Backup example_config (Some (OSError ''connection refused'')) None)
               stub_Deps [Tick, Tick] ())) \<and>
   run_calls
       (fst (Run (stub_Backup example_config (Some (OSError ''connection refused'')) None)
               stub_Deps [Tick, Tick] ())) = []"
  using C8_connection_failure_aborts_startup
    [of "stub_Backup example_config (Some (OSError ''connection refused'')) None" "()"
        example_config "()" stub_Deps "()" "()" "OSError ''connection refused''" "()"
        "[Tick, Tick]"]
  by (simp add: stub_Backup_def stub_Deps_def example_config_def)

text \<open>
  Claim C9. Once startup has succeeded and the schedule expression is accepted, whatever
  \<^verbatim>\<open>b.Run\<close> answers at the startup run and at the ticks: the job is registered and the
  scheduler started, \<^verbatim>\<open>b.Run\<close> is called at the startup run (when configured) and at
  every tick before the signal, each failure is logged, and \<^verbatim>\<open>Run\<close> never returns an
  error: it stays blocked waiting while no signal arrives, and returns \<^verbatim>\<open>nil\<close> after one.
\<close>

theorem C9_run_failures_are_not_fatal:
  assumes "Backup_Config b st = (Inr cfg, st1)"
    and "New deps cfg = Inr store"
    and "Backup_SetStorage b store st1 = (None, st2)"
    and "Backup_TestConnection b Background st2 = (None, st3)"
    and "AddFunc deps (BackupCron cfg) = Inr entryID"
  shows "scheduler_registered (fst (Run b deps inputs st)) \<and>
         scheduler_started (fst (Run b deps inputs st)) \<and>
         fst (snd (Run b deps inputs st)) = (if signalled inputs then Return None else Blocked) \<and>
         length (run_calls (fst (Run b deps inputs st))) =
           (if BackupOnStart cfg then 1 else 0) + ticks_before_signal inputs \<and>
         run_failure_logs (fst (Run b deps inputs st)) =
           [e. Some e \<leftarrow>
              (if BackupOnStart cfg then [fst (Backup_Run b Background st3)] else []) @
              tick_results b cfg (ticks_before_signal inputs)
                (if BackupOnStart cfg then snd (Backup_Run b Background st3) else st3)]"
proof -
  obtain startup_events where ev:
    "run_calls startup_events = []" "run_failure_logs startup_events = []"
    and r: "Run b deps inputs st =
       (startup_events @ fst (initial_backup b cfg st3) @
          fst (schedule b deps cfg inputs (snd (initial_backup b cfg st3))),
        snd (schedule b deps cfg inputs (snd (initial_backup b cfg st3))))"
    using Run_after_startup [OF assms(1-4), of inputs] by blast
  note s = schedule_trace [OF assms(5), of b inputs "snd (initial_backup b cfg st3)"]
  note i = initial_backup_trace [of b cfg st3]
  have reg: "scheduler_registered (fst (Run b deps inputs st))"
    unfolding r using s(3) by (simp add: trace_append)
  have sta: "scheduler_started (fst (Run b deps inputs st))"
    unfolding r using s(4) by (simp add: trace_append)
  have out: "fst (snd (Run b deps inputs st)) =
      (if signalled inputs then Return None else Blocked)"
    unfolding r using s(5) by simp
  have calls: "length (run_calls (fst (Run b deps inputs st))) =
      (if BackupOnStart cfg then 1 else 0) + ticks_before_signal inputs"
    unfolding r using s(1) i(1) ev(1) by (simp add: trace_append)
  have logs: "run_failure_logs (fst (Run b deps inputs st)) =
      [e. Some e \<leftarrow>
         (if BackupOnStart cfg then [fst (Backup_Run b Background st3)] else []) @
         tick_results b cfg (ticks_before_signal inputs)
           (if BackupOnStart cfg then snd (Backup_Run b Background st3) else st3)]"
    unfolding r using s(2) i(2) i(5) ev(2) by (simp add: trace_append split: option.splits)
  show ?thesis using reg sta out calls logs by blast
qed

theorem C9_run_failures_are_not_fatal_witness:
  "scheduler_registered
     (fst (Run (stub_Backup example_config None (Some (Plain ''pg_dump failed'')))
             stub_Deps [Tick, Tick] ())) \<and>
   scheduler_started
     (fst (Run (stub_Backup example_config None (Some (Plain ''pg_dump failed'')))
             stub_Deps [Tick, Tick] ())) \<and>
   fst (snd (Run (stub_Backup example_config None (Some (Plain ''pg_dump failed'')))
               stub_Deps [Tick, Tick] ())) = Blocked \<and>
   length (run_calls
     (fst (Run (stub_Backup example_config None (Some (Plain ''pg_dump failed'')))
             stub_Deps [Tick, Tick] ()))) = 3 \<and>
   run_failure_logs
     (fst (Run (stub_Backup example_config None (Some (Plain ''pg_dump failed'')))
             stub_Deps [Tick, Tick] ())) =
     [Plain ''pg_dump failed'', Plain ''pg_dump failed'', Plain ''pg_dump failed'']"
  using C9_run_failures_are_not_fatal
    [of "stub_Backup example_config None (Some (Plain ''pg_dump failed''))" "()"
        example_config "()" stub_Deps "()" "()" "()" 1 "[Tick, Tick]"]
  by (simp add: stub_Backup_def stub_Deps_def example_config_def numeral_2_eq_2)

text \<open>
  Claim C3 fails on the code. With run-on-startup enabled and a per-run timeout of 30
  minutes, the startup run is called with \<^verbatim>\<open>context.Background()\<close>, which has no
  deadline; the run of the cron job is called with a context bounded by the timeout.
\<close>

theorem C3_startup_run_has_no_timeout:
  "BackupOnStart example_config \<and> BackupTimeout example_config = 30 \<and>
   run_calls (fst (Run (stub_Backup example_config None None) stub_Deps [Tick] ())) =
     [Background, WithTimeout Background 30] \<and>
   \<not> bounded Background \<and> bounded (WithTimeout Background 30)"
  by (simp add: Run_def Let_def initial_backup_def schedule_def cron_job_def
      stub_Backup_def stub_Deps_def example_config_def)

end
